theory Spec2Isabelle
  imports Main
begin

section \<open>Python strings\<close>

text \<open>
  A Python \<open>str\<close> is a sequence of Unicode code points. Code points are modelled as
  natural numbers, so that \<open>str.strip()\<close> and the regular expression class \<open>\s\<close> see the
  whole of Unicode and not only one byte. \<open>ustr\<close> turns an ASCII literal into such a
  string.
\<close>

type_synonym pystr = "nat list"

definition ustr :: "string \<Rightarrow> pystr" where
  "ustr s = map of_char s"

text \<open>
  \<open>isspace\<close> is CPython's \<open>Py_UNICODE_ISSPACE\<close>, the test behind \<open>str.isspace\<close>,
  \<open>str.strip()\<close> with no argument and \<open>\s\<close> in a \<open>str\<close> pattern.
\<close>

definition isspace :: "nat \<Rightarrow> bool" where
  "isspace c =
     ((9 \<le> c \<and> c \<le> 13) \<or> (28 \<le> c \<and> c \<le> 32) \<or> c = 133 \<or> c = 160 \<or> c = 5760 \<or>
      (8192 \<le> c \<and> c \<le> 8202) \<or> c = 8232 \<or> c = 8233 \<or> c = 8239 \<or> c = 8287 \<or>
      c = 12288)"

definition lstrip :: "pystr \<Rightarrow> pystr" where
  "lstrip s = dropWhile isspace s"

definition rstrip :: "pystr \<Rightarrow> pystr" where
  "rstrip s = rev (dropWhile isspace (rev s))"

definition strip :: "pystr \<Rightarrow> pystr" where
  "strip s = rstrip (lstrip s)"

text \<open>A string is trimmed when neither end is white space.\<close>

definition trimmed :: "pystr \<Rightarrow> bool" where
  "trimmed s = (case s of [] \<Rightarrow> True | c # cs \<Rightarrow> \<not> isspace c \<and> \<not> isspace (last (c # cs)))"

definition all_space :: "pystr \<Rightarrow> bool" where
  "all_space s = list_all isspace s"

section \<open>The regular expression of \<open>clean_company_name\<close>\<close>

text \<open>
  The pattern \<open>\s*\(.*?\)\<close> uses four constructs of Python's \<open>re\<close>: a character
  class, a greedy star, a lazy star and the literal. \<open>re\<close> is a backtracking matcher:
  a greedy star tries the longest repetition first, a lazy star the shortest, and the
  first alternative that lets the rest of the pattern match wins. Without \<open>re.DOTALL\<close>
  the dot matches every character but the line feed.
\<close>

definition lparen :: nat where
  "lparen = 40"

definition rparen :: nat where
  "rparen = 41"

definition newline :: nat where
  "newline = 10"

datatype char_class = Space | Literal nat | AnyChar

datatype atom = One char_class | Greedy char_class | Lazy char_class

type_synonym pattern = "atom list"

fun in_class :: "char_class \<Rightarrow> nat \<Rightarrow> bool" where
  "in_class Space c = isspace c"
| "in_class (Literal l) c = (c = l)"
| "in_class AnyChar c = (c \<noteq> newline)"

text \<open>
  \<open>match_here p s\<close> is the match of \<open>p\<close> anchored at the start of \<open>s\<close>: \<open>None\<close> when
  every alternative fails, otherwise the text left after the match that the
  backtracking search finds first.
\<close>

fun match_here :: "pattern \<Rightarrow> pystr \<Rightarrow> pystr option" where
  "match_here [] s = Some s"
| "match_here (One k # p) [] = None"
| "match_here (One k # p) (c # cs) = (if in_class k c then match_here p cs else None)"
| "match_here (Greedy k # p) [] = match_here p []"
| "match_here (Greedy k # p) (c # cs) =
     (if in_class k c
      then (case match_here (Greedy k # p) cs of
              Some r \<Rightarrow> Some r
            | None \<Rightarrow> match_here p (c # cs))
      else match_here p (c # cs))"
| "match_here (Lazy k # p) [] = match_here p []"
| "match_here (Lazy k # p) (c # cs) =
     (case match_here p (c # cs) of
        Some r \<Rightarrow> Some r
      | None \<Rightarrow> (if in_class k c then match_here (Lazy k # p) cs else None))"

text \<open>
  \<open>re_sub_empty p s\<close> is \<open>re.sub(p, "", s)\<close>: scanning from the left, every match is
  deleted and the scan goes on after it; where nothing matches, the character is kept.
  A match of no character deletes nothing and the scan moves one character on.
\<close>

fun re_sub_empty :: "pattern \<Rightarrow> pystr \<Rightarrow> pystr" where
  "re_sub_empty p [] = []"
| "re_sub_empty p (c # cs) =
     (case match_here p (c # cs) of
        None \<Rightarrow> c # re_sub_empty p cs
      | Some r \<Rightarrow>
          (if length r < Suc (length cs) then re_sub_empty p r
           else c # re_sub_empty p cs))"

definition paren_pattern :: pattern where
  "paren_pattern = [Greedy Space, One (Literal lparen), Lazy AnyChar, One (Literal rparen)]"

text \<open>\<open>clean_company_name\<close> (lines 86 to 92).\<close>

definition clean_company_name :: "pystr \<Rightarrow> pystr" where
  "clean_company_name name = strip (re_sub_empty paren_pattern name)"


text \<open>
  What the pattern amounts to, stated without the matcher: after the longest run of white
  space comes an opening parenthesis, and the first closing parenthesis after it is
  reached with no line feed on the way.
\<close>

fun close_paren :: "pystr \<Rightarrow> pystr option" where
  "close_paren [] = None"
| "close_paren (c # cs) =
     (if c = rparen then Some cs else if c = newline then None else close_paren cs)"

definition match_paren :: "pystr \<Rightarrow> pystr option" where
  "match_paren s =
     (case dropWhile isspace s of
        [] \<Rightarrow> None
      | c # cs \<Rightarrow> if c = lparen then close_paren cs else None)"

text \<open>A string has a parenthesized group when an opening parenthesis is followed,
  anywhere later, by a closing one.\<close>

fun has_group :: "pystr \<Rightarrow> bool" where
  "has_group [] = False"
| "has_group (c # cs) = ((c = lparen \<and> rparen \<in> set cs) \<or> has_group cs)"

section \<open>Parsed markup\<close>

text \<open>
  The tree that \<open>BeautifulSoup\<close> builds: tags with a name, an attribute dictionary and
  children, text nodes and comments. The HTML parser splits the \<open>class\<close> attribute into
  its tokens; every other attribute value is one string.
\<close>

datatype attr_value = Str pystr | Tokens "pystr list"

datatype node =
    Tag pystr "pystr \<rightharpoonup> attr_value" "node list"
  | NavigableString pystr
  | Comment pystr

text \<open>\<open>descendants\<close> lists what is below a node in document order, the node itself
  left out, as the generator behind \<open>find\<close> and \<open>find_all\<close> does.\<close>

fun descendants :: "node \<Rightarrow> node list" where
  "descendants (Tag n a cs) = concat (map (\<lambda>c. c # descendants c) cs)"
| "descendants (NavigableString s) = []"
| "descendants (Comment s) = []"

text \<open>\<open>get_text\<close> is the \<open>.text\<close> of a tag: its strings joined in document order,
  comments left out.\<close>

fun get_text :: "node \<Rightarrow> pystr" where
  "get_text (Tag n a cs) = concat (map get_text cs)"
| "get_text (NavigableString s) = s"
| "get_text (Comment s) = []"

definition find_all :: "(node \<Rightarrow> bool) \<Rightarrow> node \<Rightarrow> node list" where
  "find_all p soup = filter p (descendants soup)"

definition find_first :: "(node \<Rightarrow> bool) \<Rightarrow> node \<Rightarrow> node option" where
  "find_first p soup = (case find_all p soup of [] \<Rightarrow> None | x # xs \<Rightarrow> Some x)"

fun is_tag :: "pystr \<Rightarrow> node \<Rightarrow> bool" where
  "is_tag nm (Tag n a cs) = (n = nm)"
| "is_tag nm (NavigableString s) = False"
| "is_tag nm (Comment s) = False"

fun join :: "pystr \<Rightarrow> pystr list \<Rightarrow> pystr" where
  "join sep [] = []"
| "join sep [x] = x"
| "join sep (x # y # ys) = x @ sep @ join sep (y # ys)"

text \<open>An attribute filter with a string: a string value must be equal to it; of a token
  list, one token or the tokens joined by spaces must be.\<close>

fun attr_matches :: "attr_value option \<Rightarrow> pystr \<Rightarrow> bool" where
  "attr_matches None v = False"
| "attr_matches (Some (Str s)) v = (s = v)"
| "attr_matches (Some (Tokens ts)) v = (v \<in> set ts \<or> join (ustr '' '') ts = v)"

fun has_attr :: "pystr \<Rightarrow> pystr \<Rightarrow> node \<Rightarrow> bool" where
  "has_attr k v (Tag n a cs) = attr_matches (a k) v"
| "has_attr k v (NavigableString s) = False"
| "has_attr k v (Comment s) = False"

section \<open>The outside world\<close>

text \<open>
  The program talks to the network through \<open>requests.get\<close> and parses with
  \<open>BeautifulSoup\<close>. Both are parameters of the model. Every call is recorded in a trace
  of events, and the answer of the network may depend on the calls made so far.
  \<open>requests.get\<close> either raises (the \<open>Inl\<close> case carries the exception's name) or
  returns a response.
\<close>

record response =
  status_code :: nat
  resp_text :: pystr

datatype event = HttpGet pystr "(pystr \<times> pystr) list" | Parse pystr pystr

datatype error = RequestException pystr | HTTPError nat | AttributeError

record world =
  http_get :: "event list \<Rightarrow> pystr \<Rightarrow> (pystr \<times> pystr) list \<Rightarrow> pystr + response"
  BeautifulSoup :: "pystr \<Rightarrow> pystr \<Rightarrow> node"

text \<open>\<open>Response.raise_for_status\<close> raises for the status codes 400 to 599.\<close>

definition raise_for_status :: "response \<Rightarrow> error + unit" where
  "raise_for_status r =
     (if 400 \<le> status_code r \<and> status_code r < 600 then Inl (HTTPError (status_code r))
      else Inr ())"

text \<open>The User-Agent values that the GET requests of a trace carried.\<close>

fun user_agents :: "event list \<Rightarrow> pystr list" where
  "user_agents [] = []"
| "user_agents (HttpGet url hs # es) =
     (case map_of hs (ustr ''User-Agent'') of
        Some ua \<Rightarrow> ua # user_agents es
      | None \<Rightarrow> user_agents es)"
| "user_agents (Parse m f # es) = user_agents es"

text \<open>The documents that a trace handed to the parser, with the parser asked for.\<close>

fun parses :: "event list \<Rightarrow> (pystr \<times> pystr) list" where
  "parses [] = []"
| "parses (HttpGet url hs # es) = parses es"
| "parses (Parse m f # es) = (m, f) # parses es"

section \<open>The notebook's functions\<close>

text \<open>
  The functions of \<open>stockAnalyser.ipynb\<close>, each with the world as a first argument and
  the trace threaded through. \<open>HEADERS\<close> is the module-level dictionary (line 47);
  \<open>fetch_page\<close> (lines 75 to 84) does not use it and builds a dictionary of its own. It
  does not look at the status of the response.
\<close>

definition HEADERS :: "(pystr \<times> pystr) list" where
  "HEADERS = [(ustr ''User-Agent'', ustr ''Mozilla/5.0 (Windows NT 10.0; Win64; x64)'')]"

definition page_url :: "pystr \<Rightarrow> pystr" where
  "page_url ticker = ustr ''https://finance.yahoo.com/quote/'' @ ticker @ ustr ''/''"

definition fetch_page :: "world \<Rightarrow> pystr \<Rightarrow> event list \<Rightarrow> event list \<times> (error + node)" where
  "fetch_page w ticker tr =
     (let url = page_url ticker;
          headers = [(ustr ''User-Agent'', ustr ''Mozilla/5.0'')]
      in case http_get w tr url headers of
           Inl exn \<Rightarrow> (tr @ [HttpGet url headers], Inl (RequestException exn))
         | Inr response \<Rightarrow>
             (tr @ [HttpGet url headers, Parse (resp_text response) (ustr ''html.parser'')],
              Inr (BeautifulSoup w (resp_text response) (ustr ''html.parser''))))"

text \<open>
  \<open>get_company_name\<close> (lines 95 to 104) and \<open>get_current_price\<close> (lines 107 to 114).
  A tag is true in a condition whatever its contents, so \<open>if h1_tag:\<close> only tells a
  tag from \<open>None\<close>.
\<close>

definition is_name_heading :: "node \<Rightarrow> bool" where
  "is_name_heading e = (is_tag (ustr ''h1'') e \<and> has_attr (ustr ''class'') (ustr ''yf-xxbei9'') e)"

definition name_not_found :: pystr where
  "name_not_found = ustr ''Nome n'' @ [227] @ ustr ''o encontrado''"

definition get_company_name :: "node \<Rightarrow> pystr" where
  "get_company_name soup =
     (case find_first is_name_heading soup of
        Some h1_tag \<Rightarrow> clean_company_name (strip (get_text h1_tag))
      | None \<Rightarrow> name_not_found)"

definition is_price_span :: "node \<Rightarrow> bool" where
  "is_price_span e =
     (is_tag (ustr ''span'') e \<and> has_attr (ustr ''data-testid'') (ustr ''qsp-price'') e)"

definition get_current_price :: "node \<Rightarrow> pystr option" where
  "get_current_price soup =
     (case find_first is_price_span soup of
        Some price_span \<Rightarrow> Some (strip (get_text price_span))
      | None \<Rightarrow> None)"

text \<open>A Python slice \<open>xs[:n]\<close>: a negative \<open>n\<close> counts from the end.\<close>

definition slice_to :: "int \<Rightarrow> 'a list \<Rightarrow> 'a list" where
  "slice_to n xs = (if 0 \<le> n then take (nat n) xs else take (length xs - nat (- n)) xs)"

text \<open>\<open>it.title.text\<close>: the first tag of that name below \<open>it\<close>; when there is none the
  attribute access on \<open>None\<close> raises.\<close>

definition child_text :: "pystr \<Rightarrow> node \<Rightarrow> error + pystr" where
  "child_text nm it =
     (case find_first (is_tag nm) it of
        None \<Rightarrow> Inl AttributeError
      | Some t \<Rightarrow> Inr (get_text t))"

record news_row =
  titulo :: pystr
  resumo :: pystr

definition entry_row :: "node \<Rightarrow> error + news_row" where
  "entry_row it =
     (case child_text (ustr ''title'') it of
        Inl e \<Rightarrow> Inl e
      | Inr t \<Rightarrow>
          (case child_text (ustr ''description'') it of
             Inl e \<Rightarrow> Inl e
           | Inr d \<Rightarrow> Inr \<lparr>titulo = strip t, resumo = strip d\<rparr>))"

fun news_loop :: "node list \<Rightarrow> news_row list \<Rightarrow> error + news_row list" where
  "news_loop [] dados = Inr dados"
| "news_loop (it # its) dados =
     (case entry_row it of
        Inl e \<Rightarrow> Inl e
      | Inr row \<Rightarrow> news_loop its (dados @ [row]))"

text \<open>
  \<open>get_latest_news\<close> (lines 116 to 140): the GET, \<open>raise_for_status\<close>, the parse, the
  slice of the \<open>item\<close> tags and the loop that appends one row for each. The data frame
  it returns is the list of its rows.
\<close>

definition rss_url :: "pystr \<Rightarrow> pystr" where
  "rss_url ticker =
     ustr ''https://feeds.finance.yahoo.com/rss/2.0/headline'' @
     ustr ''?s='' @ ticker @ ustr ''&region=US&lang=en-US''"

text \<open>The entries of the feed in a response, in document order.\<close>

definition feed_items :: "world \<Rightarrow> response \<Rightarrow> node list" where
  "feed_items w r = find_all (is_tag (ustr ''item'')) (BeautifulSoup w (resp_text r) (ustr ''xml''))"

definition get_latest_news ::
  "world \<Rightarrow> pystr \<Rightarrow> int \<Rightarrow> event list \<Rightarrow> event list \<times> (error + news_row list)" where
  "get_latest_news w ticker n tr =
     (case http_get w tr (rss_url ticker) HEADERS of
        Inl exn \<Rightarrow> (tr @ [HttpGet (rss_url ticker) HEADERS], Inl (RequestException exn))
      | Inr r \<Rightarrow>
          (case raise_for_status r of
             Inl e \<Rightarrow> (tr @ [HttpGet (rss_url ticker) HEADERS], Inl e)
           | Inr u \<Rightarrow>
               (tr @ [HttpGet (rss_url ticker) HEADERS, Parse (resp_text r) (ustr ''xml'')],
                news_loop (slice_to n (feed_items w r)) [])))"

text \<open>\<open>analyze_stock\<close> (lines 150 to 166) and the dictionary it returns.\<close>

record snapshot =
  ticker :: pystr
  nome :: pystr
  preco_atual :: "pystr option"
  noticias :: "news_row list"

definition analyze_stock ::
  "world \<Rightarrow> pystr \<Rightarrow> int \<Rightarrow> event list \<Rightarrow> event list \<times> (error + snapshot)" where
  "analyze_stock w t n_news tr =
     (case fetch_page w t tr of
        (tr1, Inl e) \<Rightarrow> (tr1, Inl e)
      | (tr1, Inr soup) \<Rightarrow>
          (case get_latest_news w t n_news tr1 of
             (tr2, Inl e) \<Rightarrow> (tr2, Inl e)
           | (tr2, Inr news) \<Rightarrow>
               (tr2, Inr \<lparr>ticker = t, nome = get_company_name soup,
                          preco_atual = get_current_price soup, noticias = news\<rparr>)))"

text \<open>
  The cell that runs a list of tickers (lines 342 to 349): the comprehension \<open>todos\<close>
  calls \<open>analyze_stock\<close> for one ticker after the other, and \<open>df_prices\<close> is built
  from \<open>todos\<close> once all of them have returned. The cell fixes the list of tickers and
  \<open>n_news=3\<close>; here both are arguments.
\<close>

fun analyze_all ::
  "world \<Rightarrow> int \<Rightarrow> pystr list \<Rightarrow> snapshot list \<Rightarrow> event list \<Rightarrow>
   event list \<times> (error + snapshot list)" where
  "analyze_all w n [] todos tr = (tr, Inr todos)"
| "analyze_all w n (t # ts) todos tr =
     (case analyze_stock w t n tr of
        (tr1, Inl e) \<Rightarrow> (tr1, Inl e)
      | (tr1, Inr r) \<Rightarrow> analyze_all w n ts (todos @ [r]) tr1)"

definition price_row :: "snapshot \<Rightarrow> pystr \<times> pystr \<times> pystr option" where
  "price_row r = (ticker r, nome r, preco_atual r)"

definition batch_runner ::
  "world \<Rightarrow> pystr list \<Rightarrow> int \<Rightarrow> event list \<Rightarrow>
   event list \<times> (error + (pystr \<times> pystr \<times> pystr option) list \<times> snapshot list)" where
  "batch_runner w tickers n tr =
     (case analyze_all w n tickers [] tr of
        (tr1, Inl e) \<Rightarrow> (tr1, Inl e)
      | (tr1, Inr todos) \<Rightarrow> (tr1, Inr (map price_row todos, todos)))"

section \<open>Fixtures\<close>

text \<open>
  Canned pages and feeds for the ticker AAPL, and a world that serves them: the quote
  page and the feed of AAPL are answered, every other request fails in transport.
\<close>

definition document :: "node list \<Rightarrow> node" where
  "document cs = Tag (ustr ''[document]'') Map.empty cs"

definition aapl_page :: node where
  "aapl_page =
     document
      [Tag (ustr ''html'') Map.empty
        [Comment (ustr ''quote''),
         Tag (ustr ''h1'') [ustr ''class'' \<mapsto> Tokens [ustr ''yf-xxbei9'']]
           [NavigableString (ustr '' Apple Inc. (AAPL) '')],
         Tag (ustr ''span'') [ustr ''data-testid'' \<mapsto> Str (ustr ''qsp-price'')]
           [NavigableString (ustr ''195.27 '')]]]"

definition bare_page :: node where
  "bare_page = document [Tag (ustr ''html'') Map.empty [NavigableString (ustr ''Not found'')]]"

definition feed_item :: "pystr \<Rightarrow> pystr \<Rightarrow> node" where
  "feed_item t d =
     Tag (ustr ''item'') Map.empty
       [Tag (ustr ''title'') Map.empty [NavigableString t],
        Tag (ustr ''description'') Map.empty [NavigableString d]]"

definition feed_of :: "node list \<Rightarrow> node" where
  "feed_of items =
     document
      [Tag (ustr ''rss'') Map.empty
        [Tag (ustr ''channel'') Map.empty
          (Tag (ustr ''title'') Map.empty [NavigableString (ustr ''AAPL News'')] # items)]]"

definition aapl_items :: "node list" where
  "aapl_items =
     [feed_item (ustr '' T1 '') (ustr ''D1''), feed_item (ustr ''T2'') (ustr ''D2 ''),
      feed_item (ustr ''T3'') (ustr ''D3''), feed_item (ustr ''T4'') (ustr ''D4''),
      feed_item (ustr ''T5'') (ustr ''D5''), feed_item (ustr ''T6'') (ustr ''D6'')]"

definition aapl_feed :: node where
  "aapl_feed = feed_of aapl_items"

definition short_feed :: node where
  "short_feed = feed_of [feed_item (ustr ''T1'') (ustr ''D1''), feed_item (ustr ''T2'') (ustr ''D2'')]"

definition broken_feed :: node where
  "broken_feed =
     feed_of
      [feed_item (ustr ''T1'') (ustr ''D1''),
       Tag (ustr ''item'') Map.empty [Tag (ustr ''title'') Map.empty [NavigableString (ustr ''T2'')]]]"

definition AAPL :: pystr where
  "AAPL = ustr ''AAPL''"

definition fixture_world :: "node \<Rightarrow> nat \<Rightarrow> node \<Rightarrow> world" where
  "fixture_world page feed_status feed =
     \<lparr>http_get = (\<lambda>tr url hs.
         if url = page_url AAPL then Inr \<lparr>status_code = 200, resp_text = ustr ''page''\<rparr>
         else if url = rss_url AAPL
           then Inr \<lparr>status_code = feed_status, resp_text = ustr ''feed''\<rparr>
         else Inl (ustr ''ConnectionError'')),
      BeautifulSoup = (\<lambda>markup features.
         if markup = ustr ''page'' \<and> features = ustr ''html.parser'' then page
         else if markup = ustr ''feed'' \<and> features = ustr ''xml'' then feed
         else document [])\<rparr>"

definition aapl_world :: world where
  "aapl_world = fixture_world aapl_page 200 aapl_feed"

text \<open>What one run of \<open>analyze_stock\<close> on AAPL does in \<open>aapl_world\<close>, and the record it
  builds when \<open>k\<close> news items are asked for.\<close>

definition aapl_trace :: "event list" where
  "aapl_trace =
     [HttpGet (page_url AAPL) [(ustr ''User-Agent'', ustr ''Mozilla/5.0'')],
      Parse (ustr ''page'') (ustr ''html.parser''),
      HttpGet (rss_url AAPL) HEADERS,
      Parse (ustr ''feed'') (ustr ''xml'')]"

definition aapl_snapshot :: "nat \<Rightarrow> snapshot" where
  "aapl_snapshot k =
     \<lparr>ticker = ustr ''AAPL'', nome = ustr ''Apple Inc.'', preco_atual = Some (ustr ''195.27''),
      noticias = take k
        [\<lparr>titulo = ustr ''T1'', resumo = ustr ''D1''\<rparr>, \<lparr>titulo = ustr ''T2'', resumo = ustr ''D2''\<rparr>,
         \<lparr>titulo = ustr ''T3'', resumo = ustr ''D3''\<rparr>, \<lparr>titulo = ustr ''T4'', resumo = ustr ''D4''\<rparr>,
         \<lparr>titulo = ustr ''T5'', resumo = ustr ''D5''\<rparr>, \<lparr>titulo = ustr ''T6'', resumo = ustr ''D6''\<rparr>]\<rparr>"

section \<open>Facts about the pattern and about trimming\<close>

lemma lazy_close: "match_here [Lazy AnyChar, One (Literal rparen)] s = close_paren s"
  by (induction s) auto

lemma not_space_lparen: "\<not> isspace lparen"
  by (simp add: isspace_def lparen_def)

lemma greedy_space:
  "match_here (Greedy Space # One (Literal lparen) # q) s =
     (case dropWhile isspace s of [] \<Rightarrow> None | c # cs \<Rightarrow> if c = lparen then match_here q cs else None)"
  by (induction s) (auto simp: not_space_lparen split: option.splits list.splits)

lemma match_paren: "match_here paren_pattern s = match_paren s"
  unfolding paren_pattern_def match_paren_def greedy_space lazy_close ..

lemma close_paren_Some: "close_paren s = Some r \<Longrightarrow> \<exists>b. s = b @ rparen # r \<and> rparen \<notin> set b \<and> newline \<notin> set b"
proof (induction s)
  case Nil then show ?case by simp
next
  case (Cons c cs)
  show ?case
  proof (cases "c = rparen")
    case True
    with Cons.prems have "c # cs = [] @ rparen # r" by simp
    then show ?thesis by (metis empty_iff list.set(1))
  next
    case False
    with Cons.prems have nl: "c \<noteq> newline" and "close_paren cs = Some r" by (auto split: if_splits)
    with Cons.IH obtain b where "cs = b @ rparen # r" "rparen \<notin> set b" "newline \<notin> set b" by blast
    with False nl have "c # cs = (c # b) @ rparen # r \<and> rparen \<notin> set (c # b) \<and> newline \<notin> set (c # b)" by simp
    then show ?thesis by blast
  qed
qed

lemma close_paren_append: "rparen \<notin> set b \<Longrightarrow> newline \<notin> set b \<Longrightarrow> close_paren (b @ rparen # r) = Some r"
  by (induction b) auto

lemma close_paren_None: "close_paren s = None \<Longrightarrow> newline \<notin> set s \<Longrightarrow> rparen \<notin> set s"
  by (induction s) (auto split: if_splits)

lemma match_paren_Some:
  "match_paren s = Some r \<Longrightarrow> \<exists>w b. s = w @ lparen # b @ rparen # r \<and> all_space w \<and> rparen \<notin> set b \<and> newline \<notin> set b"
proof -
  assume m: "match_paren s = Some r"
  have s: "s = takeWhile isspace s @ dropWhile isspace s" by simp
  from m obtain cs where d: "dropWhile isspace s = lparen # cs" and c: "close_paren cs = Some r"
    by (auto simp: match_paren_def split: list.splits if_splits)
  from close_paren_Some[OF c] obtain b where b: "cs = b @ rparen # r" "rparen \<notin> set b" "newline \<notin> set b" by blast
  have "all_space (takeWhile isspace s)" by (simp add: all_space_def list_all_iff) (meson set_takeWhileD)
  with s d b show ?thesis by metis
qed

lemma match_paren_shorter: "match_paren s = Some r \<Longrightarrow> length r < length s"
  by (drule match_paren_Some) auto

lemma match_paren_group:
  "all_space w \<Longrightarrow> rparen \<notin> set b \<Longrightarrow> newline \<notin> set b \<Longrightarrow> match_paren (w @ lparen # b @ rparen # r) = Some r"
  by (simp add: match_paren_def all_space_def list_all_iff dropWhile_append3 not_space_lparen close_paren_append)


lemma sub_Cons:
  "re_sub_empty paren_pattern (c # cs) = (case match_paren (c # cs) of None \<Rightarrow> c # re_sub_empty paren_pattern cs | Some r \<Rightarrow> re_sub_empty paren_pattern r)"
  by (auto simp: match_paren split: option.splits dest: match_paren_shorter)

declare re_sub_empty.simps(2) [simp del]

lemma sub_match: "match_paren s = Some r \<Longrightarrow> re_sub_empty paren_pattern s = re_sub_empty paren_pattern r"
  by (cases s) (auto simp: sub_Cons match_paren_def)

lemma sub_subset: "set (re_sub_empty paren_pattern s) \<subseteq> set s"
proof (induction s rule: length_induct)
  case (1 s)
  show ?case
  proof (cases s)
    case Nil then show ?thesis by simp
  next
    case (Cons c cs)
    show ?thesis
    proof (cases "match_paren s")
      case None
      with Cons 1 show ?thesis by (auto simp: sub_Cons)
    next
      case (Some r)
      from match_paren_Some[OF Some] have "set r \<subseteq> set s" by auto
      moreover from 1 match_paren_shorter[OF Some] have "set (re_sub_empty paren_pattern r) \<subseteq> set r" by blast
      ultimately show ?thesis using sub_match[OF Some] by auto
    qed
  qed
qed

lemma sub_no_group: "newline \<notin> set s \<Longrightarrow> \<not> has_group (re_sub_empty paren_pattern s)"
proof (induction s rule: length_induct)
  case (1 s)
  show ?case
  proof (cases s)
    case Nil then show ?thesis by simp
  next
    case (Cons c cs)
    show ?thesis
    proof (cases "match_paren s")
      case None
      from 1 Cons have ih: "\<not> has_group (re_sub_empty paren_pattern cs)" by simp
      have "rparen \<notin> set (re_sub_empty paren_pattern cs)" if "c = lparen"
      proof -
        from that None Cons have "close_paren cs = None"
          by (simp add: match_paren_def not_space_lparen)
        with 1(2) Cons have "rparen \<notin> set cs" by (auto dest: close_paren_None)
        with sub_subset show ?thesis by blast
      qed
      with ih None Cons show ?thesis by (auto simp: sub_Cons)
    next
      case (Some r)
      from match_paren_Some[OF Some] 1(2) have "newline \<notin> set r" by auto
      with 1 match_paren_shorter[OF Some] have "\<not> has_group (re_sub_empty paren_pattern r)" by blast
      then show ?thesis using sub_match[OF Some] by simp
    qed
  qed
qed

lemma has_group_iff: "has_group t \<longleftrightarrow> (\<exists>a b c. t = a @ lparen # b @ rparen # c)"
proof (induction t)
  case Nil then show ?case by simp
next
  case (Cons x t)
  show ?case
  proof
    assume "has_group (x # t)"
    then consider "x = lparen" "rparen \<in> set t" | "has_group t" by auto
    then show "\<exists>a b c. x # t = a @ lparen # b @ rparen # c"
    proof cases
      case 1
      then obtain b c where "t = b @ rparen # c" by (auto simp: in_set_conv_decomp)
      with 1 have "x # t = [] @ lparen # b @ rparen # c" by simp
      then show ?thesis by blast
    next
      case 2
      with Cons obtain a b c where "t = a @ lparen # b @ rparen # c" by blast
      then have "x # t = (x # a) @ lparen # b @ rparen # c" by simp
      then show ?thesis by blast
    qed
  next
    assume "\<exists>a b c. x # t = a @ lparen # b @ rparen # c"
    then obtain a b c where e: "x # t = a @ lparen # b @ rparen # c" by blast
    show "has_group (x # t)"
    proof (cases a)
      case Nil
      with e show ?thesis by auto
    next
      case (Cons y a')
      with e have "t = a' @ lparen # b @ rparen # c" by simp
      with Cons.IH show ?thesis by auto
    qed
  qed
qed

lemma has_group_mid: "has_group t \<Longrightarrow> has_group (u @ t @ v)"
proof -
  assume "has_group t"
  then obtain a b c where "t = a @ lparen # b @ rparen # c" by (auto simp: has_group_iff)
  then have "u @ t @ v = (u @ a) @ lparen # b @ rparen # (c @ v)" by simp
  then show ?thesis unfolding has_group_iff by blast
qed

lemma rstrip_decomp: "\<exists>v. s = rstrip s @ v \<and> all_space v"
proof -
  have "rev s = takeWhile isspace (rev s) @ dropWhile isspace (rev s)" by simp
  then have "s = rev (dropWhile isspace (rev s)) @ rev (takeWhile isspace (rev s))"
    by (metis rev_append rev_rev_ident)
  moreover have "all_space (rev (takeWhile isspace (rev s)))"
    by (simp add: all_space_def list_all_iff) (meson set_takeWhileD)
  ultimately show ?thesis unfolding rstrip_def by blast
qed

lemma lstrip_decomp: "\<exists>u. s = u @ lstrip s \<and> all_space u"
proof -
  have "s = takeWhile isspace s @ dropWhile isspace s" by simp
  moreover have "all_space (takeWhile isspace s)"
    by (simp add: all_space_def list_all_iff) (meson set_takeWhileD)
  ultimately show ?thesis unfolding lstrip_def by blast
qed

lemma strip_decomp: "\<exists>u v. s = u @ strip s @ v \<and> all_space u \<and> all_space v"
proof -
  obtain u where u: "s = u @ lstrip s" "all_space u" using lstrip_decomp by blast
  obtain v where v: "lstrip s = rstrip (lstrip s) @ v" "all_space v" using rstrip_decomp by blast
  from u v have "s = u @ strip s @ v" by (simp add: strip_def)
  with u v show ?thesis by blast
qed

lemma has_group_strip: "has_group (strip s) \<Longrightarrow> has_group s"
  using strip_decomp[of s] has_group_mid by metis

lemma clean_no_group: "newline \<notin> set s \<Longrightarrow> \<not> has_group (clean_company_name s)"
  unfolding clean_company_name_def using sub_no_group has_group_strip by blast


lemma match_paren_prefix_None:
  assumes "lparen \<notin> set a" "a \<noteq> []" "\<not> isspace (last a)"
  shows "match_paren (a @ c) = None"
proof -
  from assms have "last a \<in> set a" by simp
  then have d: "dropWhile isspace (a @ c) = dropWhile isspace a @ c"
    using assms(3) by (rule dropWhile_append1)
  from \<open>last a \<in> set a\<close> assms(3) have ne: "dropWhile isspace a \<noteq> []"
    by (auto simp: dropWhile_eq_Nil_conv)
  then obtain y ys where y: "dropWhile isspace a = y # ys" by (cases "dropWhile isspace a") auto
  then have "y \<in> set a" by (metis list.set_intros(1) set_dropWhileD)
  with assms(1) have "y \<noteq> lparen" by auto
  with d y show ?thesis by (simp add: match_paren_def)
qed

lemma sub_prefix:
  "lparen \<notin> set a \<Longrightarrow> a = [] \<or> \<not> isspace (last a) \<Longrightarrow> re_sub_empty paren_pattern (a @ c) = a @ re_sub_empty paren_pattern c"
proof (induction a)
  case Nil then show ?case by simp
next
  case (Cons x a)
  from Cons.prems have "match_paren ((x # a) @ c) = None"
    by (intro match_paren_prefix_None) auto
  then have "re_sub_empty paren_pattern ((x # a) @ c) = x # re_sub_empty paren_pattern (a @ c)" by (simp add: sub_Cons)
  moreover from Cons.prems have "lparen \<notin> set a" "a = [] \<or> \<not> isspace (last a)" by (auto split: if_splits)
  ultimately show ?case using Cons.IH by simp
qed

lemma sub_group:
  assumes "lparen \<notin> set a" "a = [] \<or> \<not> isspace (last a)" "all_space w"
    "rparen \<notin> set b" "newline \<notin> set b"
  shows "re_sub_empty paren_pattern (a @ w @ lparen # b @ rparen # c) = re_sub_empty paren_pattern (a @ c)"
proof -
  have "re_sub_empty paren_pattern (a @ w @ lparen # b @ rparen # c) = a @ re_sub_empty paren_pattern (w @ lparen # b @ rparen # c)"
    using assms(1,2) by (rule sub_prefix)
  also have "re_sub_empty paren_pattern (w @ lparen # b @ rparen # c) = re_sub_empty paren_pattern c"
    using assms(3-5) by (intro sub_match match_paren_group)
  also have "a @ re_sub_empty paren_pattern c = re_sub_empty paren_pattern (a @ c)"
    using assms(1,2) by (rule sub_prefix[symmetric])
  finally show ?thesis .
qed

lemma trimmed_rstrip: "s = [] \<or> \<not> isspace (hd s) \<Longrightarrow> trimmed (rstrip s)"
proof -
  assume h: "s = [] \<or> \<not> isspace (hd s)"
  show ?thesis
  proof (cases "rstrip s")
    case Nil then show ?thesis by (simp add: trimmed_def)
  next
    case (Cons y ys)
    from rstrip_decomp obtain v where v: "s = rstrip s @ v" by blast
    with Cons h have "\<not> isspace y" by (cases s) auto
    moreover have "\<not> isspace (last (rstrip s))"
    proof -
      from Cons have "dropWhile isspace (rev s) \<noteq> []" by (auto simp: rstrip_def)
      then have "\<not> isspace (hd (dropWhile isspace (rev s)))" by (rule hd_dropWhile)
      moreover have "last (rstrip s) = hd (dropWhile isspace (rev s))"
        unfolding rstrip_def using \<open>dropWhile isspace (rev s) \<noteq> []\<close> by (simp add: last_rev)
      ultimately show ?thesis by simp
    qed
    ultimately show ?thesis using Cons by (simp add: trimmed_def)
  qed
qed

lemma trimmed_strip: "trimmed (strip s)"
  unfolding strip_def lstrip_def
  by (rule trimmed_rstrip) (metis hd_dropWhile)

lemma strip_all_space: "all_space s \<Longrightarrow> strip s = []"
proof -
  assume "all_space s"
  then have "lstrip s = []" by (simp add: lstrip_def all_space_def list_all_iff)
  then show ?thesis by (simp add: strip_def rstrip_def)
qed

lemma lstrip_pad: "all_space u \<Longrightarrow> t = [] \<or> \<not> isspace (hd t) \<Longrightarrow> lstrip (u @ t) = t"
proof -
  assume u: "all_space u" and t: "t = [] \<or> \<not> isspace (hd t)"
  from u have "dropWhile isspace (u @ t) = dropWhile isspace t"
    by (intro dropWhile_append2) (simp add: all_space_def list_all_iff)
  also from t have "dropWhile isspace t = t" by (simp add: dropWhile_eq_self_iff)
  finally show ?thesis by (simp add: lstrip_def)
qed

lemma rstrip_pad: "all_space v \<Longrightarrow> t = [] \<or> \<not> isspace (last t) \<Longrightarrow> rstrip (t @ v) = t"
proof -
  assume v: "all_space v" and t: "t = [] \<or> \<not> isspace (last t)"
  from v have "all_space (rev v)" by (simp add: all_space_def list_all_iff)
  moreover from t have "rev t = [] \<or> \<not> isspace (hd (rev t))" by (simp add: hd_rev)
  ultimately have "lstrip (rev v @ rev t) = rev t" by (rule lstrip_pad)
  then show ?thesis by (simp add: rstrip_def lstrip_def)
qed

lemma strip_pad:
  assumes "all_space u" "all_space v" "trimmed t"
  shows "strip (u @ t @ v) = t"
proof (cases t)
  case Nil
  with assms have "all_space (u @ t @ v)" by (simp add: all_space_def)
  with Nil show ?thesis by (simp add: strip_all_space)
next
  case (Cons y ys)
  with assms(3) have y: "\<not> isspace (hd t)" and l: "\<not> isspace (last t)" by (auto simp: trimmed_def)
  from Cons y have "t @ v = [] \<or> \<not> isspace (hd (t @ v))" by simp
  with assms(1) have "lstrip (u @ t @ v) = t @ v" by (rule lstrip_pad)
  moreover from assms(2) l have "rstrip (t @ v) = t" by (intro rstrip_pad) auto
  ultimately show ?thesis by (simp add: strip_def)
qed

section \<open>Facts about searching the markup\<close>

lemma find_first_None_iff: "find_first p soup = None \<longleftrightarrow> (\<forall>e\<in>set (descendants soup). \<not> p e)"
proof (cases "filter p (descendants soup)")
  case Nil
  then show ?thesis by (simp add: find_first_def find_all_def filter_empty_conv)
next
  case (Cons x xs)
  then have "\<not> (\<forall>e\<in>set (descendants soup). \<not> p e)"
    by (metis filter_empty_conv list.distinct(1))
  with Cons show ?thesis by (simp add: find_first_def find_all_def)
qed

lemmas eval_str = ustr_def isspace_def lparen_def rparen_def newline_def

lemma trimmed_apple: "trimmed (ustr ''Apple Inc. (AAPL)'')"
  by (simp add: trimmed_def eval_str)

lemmas eval_clean = clean_company_name_def sub_Cons match_paren_def strip_def lstrip_def rstrip_def

lemmas eval_soup = find_first_def find_all_def document_def is_name_heading_def is_price_span_def

lemma clean_apple: "clean_company_name (ustr ''Apple Inc. (AAPL)'') = ustr ''Apple Inc.''"
  by (simp add: eval_clean eval_str)

section \<open>Facts about the news loop\<close>

lemma entry_row_Inr:
  "entry_row it = Inr row \<longleftrightarrow>
     (\<exists>tt dd. find_first (is_tag (ustr ''title'')) it = Some tt \<and>
              find_first (is_tag (ustr ''description'')) it = Some dd \<and>
              row = \<lparr>titulo = strip (get_text tt), resumo = strip (get_text dd)\<rparr>)"
  by (auto simp: entry_row_def child_text_def split: option.splits)


lemma news_loop_ok:
  "\<forall>it\<in>set its. \<exists>row. entry_row it = Inr row \<Longrightarrow>
   \<exists>rows. news_loop its dados = Inr (dados @ rows) \<and> list_all2 (\<lambda>it row. entry_row it = Inr row) its rows"
proof (induction its arbitrary: dados)
  case Nil
  then show ?case by simp
next
  case (Cons it its)
  from Cons.prems obtain row where row: "entry_row it = Inr row" by auto
  from Cons.prems have "\<forall>it\<in>set its. \<exists>row. entry_row it = Inr row" by simp
  from Cons.IH[OF this, of "dados @ [row]"] obtain rows where
    rows: "news_loop its (dados @ [row]) = Inr ((dados @ [row]) @ rows)"
      "list_all2 (\<lambda>it row. entry_row it = Inr row) its rows" by blast
  from row rows have "news_loop (it # its) dados = Inr (dados @ (row # rows))" by simp
  moreover from row rows have "list_all2 (\<lambda>it row. entry_row it = Inr row) (it # its) (row # rows)" by simp
  ultimately show ?case by blast
qed


lemma raise_for_status_ok: "\<not> (400 \<le> status_code r \<and> status_code r < 600) \<Longrightarrow> raise_for_status r = Inr ()"
  by (simp add: raise_for_status_def)

lemma user_agents_append: "user_agents (xs @ ys) = user_agents xs @ user_agents ys"
  by (induction xs rule: user_agents.induct) (simp_all split: option.splits)

lemma parses_snoc_get: "parses (xs @ [HttpGet u h]) = parses xs"
  by (induction xs rule: parses.induct) simp_all

section \<open>Facts about the batch\<close>

lemma analyze_stock_ticker: "analyze_stock w t n tr = (tr', Inr r) \<Longrightarrow> ticker r = t"
  by (auto simp: analyze_stock_def split: prod.splits sum.splits)

lemma analyze_all_append:
  "analyze_all w n (xs @ ys) todos tr =
     (case analyze_all w n xs todos tr of
        (tr1, Inl e) \<Rightarrow> (tr1, Inl e)
      | (tr1, Inr rs) \<Rightarrow> analyze_all w n ys rs tr1)"
  by (induction xs arbitrary: todos tr) (auto split: prod.splits sum.splits)

lemma analyze_all_Cons_Inr:
  "analyze_all w n (t # ts) todos tr = (tr', Inr out) \<Longrightarrow>
   \<exists>tr1 r. analyze_stock w t n tr = (tr1, Inr r) \<and> analyze_all w n ts (todos @ [r]) tr1 = (tr', Inr out)"
proof -
  assume a: "analyze_all w n (t # ts) todos tr = (tr', Inr out)"
  obtain tr1 x where s: "analyze_stock w t n tr = (tr1, x)" by (cases "analyze_stock w t n tr")
  show ?thesis
  proof (cases x)
    case (Inl e)
    with a s show ?thesis by simp
  next
    case (Inr r)
    with a s show ?thesis by simp
  qed
qed

lemma analyze_all_tickers:
  "analyze_all w n ts todos tr = (tr', Inr out) \<Longrightarrow> \<exists>rs. out = todos @ rs \<and> map ticker rs = ts"
proof (induction ts arbitrary: todos tr)
  case Nil
  then have "out = todos @ [] \<and> map ticker [] = []" by simp
  then show ?case by (rule exI)
next
  case (Cons t ts)
  from analyze_all_Cons_Inr[OF Cons.prems] obtain tr1 r where
    r: "analyze_stock w t n tr = (tr1, Inr r)" and
    rest: "analyze_all w n ts (todos @ [r]) tr1 = (tr', Inr out)"
    by (elim exE conjE) (rule that)
  from Cons.IH[OF rest] obtain rs where o: "out = (todos @ [r]) @ rs" and m: "map ticker rs = ts"
    by (elim exE conjE) (rule that)
  have "ticker r = t" using r by (rule analyze_stock_ticker)
  with m have "map ticker (r # rs) = t # ts" by simp
  moreover from o have "out = todos @ (r # rs)" by simp
  ultimately have "out = todos @ (r # rs) \<and> map ticker (r # rs) = t # ts" by (rule conjI[rotated])
  then show ?case by (rule exI)
qed

lemma batch_runner_abort:
  assumes "analyze_all w n pre [] tr = (tr1, Inr rs)" and "analyze_stock w t n tr1 = (tr2, Inl e)"
  shows "batch_runner w (pre @ t # post) n tr = (tr2, Inl e)"
proof -
  have "analyze_all w n (pre @ t # post) [] tr = analyze_all w n (t # post) rs tr1"
    by (simp only: analyze_all_append assms(1) prod.case sum.case)
  also have "\<dots> = (tr2, Inl e)" using assms(2) by simp
  finally show ?thesis by (simp add: batch_runner_def)
qed

lemma batch_runner_Inr:
  assumes "batch_runner w tickers n tr = (tr3, Inr (df, todos))"
  shows "analyze_all w n tickers [] tr = (tr3, Inr todos) \<and> df = map price_row todos"
proof -
  obtain tr1 x where a: "analyze_all w n tickers [] tr = (tr1, x)"
    by (cases "analyze_all w n tickers [] tr")
  show ?thesis
  proof (cases x)
    case (Inl e)
    with a assms show ?thesis by (simp add: batch_runner_def)
  next
    case (Inr out)
    with a assms show ?thesis by (auto simp: batch_runner_def)
  qed
qed

section \<open>Evaluating the fixtures\<close>

lemmas eval_world = fixture_world_def aapl_world_def page_url_def rss_url_def AAPL_def HEADERS_def

lemmas eval_feed = feed_of_def feed_item_def aapl_items_def aapl_feed_def short_feed_def
  broken_feed_def feed_items_def find_all_def find_first_def document_def

lemmas eval_news = get_latest_news_def raise_for_status_def slice_to_def entry_row_def child_text_def

lemmas eval_page = aapl_page_def bare_page_def get_company_name_def get_current_price_def
  is_name_heading_def is_price_span_def

lemma fetch_aapl:
  "fetch_page aapl_world AAPL tr =
     (tr @ [HttpGet (page_url AAPL) [(ustr ''User-Agent'', ustr ''Mozilla/5.0'')],
            Parse (ustr ''page'') (ustr ''html.parser'')], Inr aapl_page)"
  by (simp add: fetch_page_def fixture_world_def aapl_world_def)

lemma name_aapl: "get_company_name aapl_page = ustr ''Apple Inc.''"
  by (simp add: eval_page eval_soup eval_str eval_clean)

lemma price_aapl: "get_current_price aapl_page = Some (ustr ''195.27'')"
  by (simp add: eval_page eval_soup eval_str strip_def lstrip_def rstrip_def)

lemma news_aapl5:
  "get_latest_news aapl_world AAPL 5 tr =
     (tr @ [HttpGet (rss_url AAPL) HEADERS, Parse (ustr ''feed'') (ustr ''xml'')],
      Inr (noticias (aapl_snapshot 5)))"
  by (simp add: eval_news eval_world eval_feed eval_str strip_def lstrip_def rstrip_def aapl_snapshot_def)

lemma news_aapl3:
  "get_latest_news aapl_world AAPL 3 tr =
     (tr @ [HttpGet (rss_url AAPL) HEADERS, Parse (ustr ''feed'') (ustr ''xml'')],
      Inr (noticias (aapl_snapshot 3)))"
  by (simp add: eval_news eval_world eval_feed eval_str strip_def lstrip_def rstrip_def aapl_snapshot_def)

lemma analyze_aapl5: "analyze_stock aapl_world AAPL 5 [] = (aapl_trace, Inr (aapl_snapshot 5))"
  by (simp add: analyze_stock_def fetch_aapl name_aapl price_aapl news_aapl5 aapl_trace_def aapl_snapshot_def)
    (simp add: AAPL_def)

lemma analyze_aapl3: "analyze_stock aapl_world AAPL 3 [] = (aapl_trace, Inr (aapl_snapshot 3))"
  by (simp add: analyze_stock_def fetch_aapl name_aapl price_aapl news_aapl3 aapl_trace_def aapl_snapshot_def)
    (simp add: AAPL_def)

lemma analyze_bad:
  "analyze_stock aapl_world (ustr ''BADTICKER'') n tr =
     (tr @ [HttpGet (page_url (ustr ''BADTICKER'')) [(ustr ''User-Agent'', ustr ''Mozilla/5.0'')]],
      Inl (RequestException (ustr ''ConnectionError'')))"
  by (simp add: analyze_stock_def fetch_page_def eval_world eval_str)

text \<open>
  What the pattern does deliver. On an input without a line feed no parenthesized group
  is left. Where the text \<open>a\<close> before the first opening parenthesis does not end in
  white space and no line feed stands inside the group, the group up to the first
  closing parenthesis goes together with the white space \<open>w\<close> before it. The result
  is trimmed.
\<close>

lemma clean_company_name_one_line:
  "(newline \<notin> set s \<longrightarrow> \<not> has_group (clean_company_name s)) \<and>
   (lparen \<notin> set a \<and> (a = [] \<or> \<not> isspace (last a)) \<and> all_space w \<and>
    rparen \<notin> set b \<and> newline \<notin> set b \<longrightarrow>
      clean_company_name (a @ w @ lparen # b @ rparen # c) = clean_company_name (a @ c)) \<and>
   trimmed (clean_company_name s) \<and>
   clean_company_name (ustr ''Alpha (A) Beta (B)'') = ustr ''Alpha Beta''"
proof (intro conjI impI)
  assume "newline \<notin> set s"
  then show "\<not> has_group (clean_company_name s)" by (rule clean_no_group)
next
  assume "lparen \<notin> set a \<and> (a = [] \<or> \<not> isspace (last a)) \<and> all_space w \<and>
    rparen \<notin> set b \<and> newline \<notin> set b"
  then show "clean_company_name (a @ w @ lparen # b @ rparen # c) = clean_company_name (a @ c)"
    unfolding clean_company_name_def by (subst sub_group) auto
next
  show "trimmed (clean_company_name s)"
    unfolding clean_company_name_def by (rule trimmed_strip)
next
  show "clean_company_name (ustr ''Alpha (A) Beta (B)'') = ustr ''Alpha Beta''"
    by (simp add: clean_company_name_def ustr_def sub_Cons match_paren_def strip_def
        lstrip_def rstrip_def isspace_def lparen_def rparen_def newline_def)
qed

section \<open>The claims\<close>

text \<open>
  C1. When the page fetch and the news fetch both return, \<open>analyze_stock\<close> returns the
  record of four fields: the ticker as given, the name and the price extracted from the
  one page that was fetched, and the news that \<open>get_latest_news\<close> returned for the same
  ticker and count. The page is fetched first and the news after it. With the AAPL
  fixtures the record is AAPL, Apple Inc., 195.27 and the first five entries of the feed
  in feed order.
\<close>

theorem analyze_stock_snapshot:
  "(fetch_page w t tr = (tr1, Inr soup) \<and> get_latest_news w t n tr1 = (tr2, Inr news) \<longrightarrow>
      analyze_stock w t n tr =
        (tr2, Inr \<lparr>ticker = t, nome = get_company_name soup,
                   preco_atual = get_current_price soup, noticias = news\<rparr>)) \<and>
   analyze_stock aapl_world (ustr ''AAPL'') 5 [] =
     (aapl_trace,
      Inr \<lparr>ticker = ustr ''AAPL'', nome = ustr ''Apple Inc.'', preco_atual = Some (ustr ''195.27''),
           noticias =
             [\<lparr>titulo = ustr ''T1'', resumo = ustr ''D1''\<rparr>, \<lparr>titulo = ustr ''T2'', resumo = ustr ''D2''\<rparr>,
              \<lparr>titulo = ustr ''T3'', resumo = ustr ''D3''\<rparr>, \<lparr>titulo = ustr ''T4'', resumo = ustr ''D4''\<rparr>,
              \<lparr>titulo = ustr ''T5'', resumo = ustr ''D5''\<rparr>]\<rparr>)"
proof (rule conjI)
  show "fetch_page w t tr = (tr1, Inr soup) \<and> get_latest_news w t n tr1 = (tr2, Inr news) \<longrightarrow>
      analyze_stock w t n tr =
        (tr2, Inr \<lparr>ticker = t, nome = get_company_name soup,
                   preco_atual = get_current_price soup, noticias = news\<rparr>)"
    by (simp add: analyze_stock_def)
next
  from analyze_aapl5 show "analyze_stock aapl_world (ustr ''AAPL'') 5 [] =
     (aapl_trace,
      Inr \<lparr>ticker = ustr ''AAPL'', nome = ustr ''Apple Inc.'', preco_atual = Some (ustr ''195.27''),
           noticias =
             [\<lparr>titulo = ustr ''T1'', resumo = ustr ''D1''\<rparr>, \<lparr>titulo = ustr ''T2'', resumo = ustr ''D2''\<rparr>,
              \<lparr>titulo = ustr ''T3'', resumo = ustr ''D3''\<rparr>, \<lparr>titulo = ustr ''T4'', resumo = ustr ''D4''\<rparr>,
              \<lparr>titulo = ustr ''T5'', resumo = ustr ''D5''\<rparr>]\<rparr>)"
    by (simp add: aapl_snapshot_def AAPL_def)
qed

theorem analyze_stock_snapshot_witness:
  "analyze_stock aapl_world AAPL 3 [] = (aapl_trace, Inr (aapl_snapshot 3))"
  using analyze_stock_snapshot [of aapl_world AAPL "[]"
      "[HttpGet (page_url AAPL) [(ustr ''User-Agent'', ustr ''Mozilla/5.0'')],
        Parse (ustr ''page'') (ustr ''html.parser'')]"
      aapl_page 3 aapl_trace "noticias (aapl_snapshot 3)"]
    fetch_aapl [of "[]"]
    news_aapl3 [of "[HttpGet (page_url AAPL) [(ustr ''User-Agent'', ustr ''Mozilla/5.0'')],
        Parse (ustr ''page'') (ustr ''html.parser'')]"]
  by (simp add: analyze_aapl3)

text \<open>
  C2. When the feed request is answered with a status that \<open>raise_for_status\<close> lets
  pass, the count \<open>n\<close> is positive and each of the first \<open>n\<close> entries has a title and a
  description, \<open>get_latest_news\<close> returns rows, as many as the smaller of \<open>n\<close> and the
  number of entries of the feed; row \<open>i\<close> holds the title text and the description text
  of entry \<open>i\<close> of the document, each stripped, and both are trimmed. A feed with fewer
  than \<open>n\<close> entries gives all of them, with no padding and no error.
\<close>

theorem get_latest_news_rows:
  assumes "http_get w tr (rss_url t) HEADERS = Inr r"
    and "\<not> (400 \<le> status_code r \<and> status_code r < 600)"
    and "0 < n"
    and "\<forall>it\<in>set (take (nat n) (feed_items w r)).
           find_first (is_tag (ustr ''title'')) it \<noteq> None \<and>
           find_first (is_tag (ustr ''description'')) it \<noteq> None"
  shows "\<exists>rows.
     get_latest_news w t n tr =
       (tr @ [HttpGet (rss_url t) HEADERS, Parse (resp_text r) (ustr ''xml'')], Inr rows) \<and>
     length rows = min (nat n) (length (feed_items w r)) \<and>
     (\<forall>i<length rows. \<exists>tt dd.
        find_first (is_tag (ustr ''title'')) (feed_items w r ! i) = Some tt \<and>
        find_first (is_tag (ustr ''description'')) (feed_items w r ! i) = Some dd \<and>
        rows ! i = \<lparr>titulo = strip (get_text tt), resumo = strip (get_text dd)\<rparr> \<and>
        trimmed (titulo (rows ! i)) \<and> trimmed (resumo (rows ! i)))"
proof -
  let ?items = "take (nat n) (feed_items w r)"
  from assms(3) have sl: "slice_to n (feed_items w r) = ?items" by (simp add: slice_to_def)
  from assms(4) have "\<forall>it\<in>set ?items. \<exists>row. entry_row it = Inr row"
    by (auto simp: entry_row_Inr)
  from news_loop_ok[OF this, of "[]"] obtain rows where
    rows: "news_loop ?items [] = Inr rows" "list_all2 (\<lambda>it row. entry_row it = Inr row) ?items rows"
    by auto
  have len: "length rows = min (nat n) (length (feed_items w r))"
    using list_all2_lengthD[OF rows(2)] by simp
  have res: "get_latest_news w t n tr =
       (tr @ [HttpGet (rss_url t) HEADERS, Parse (resp_text r) (ustr ''xml'')], Inr rows)"
    using assms(1,2) rows(1) sl by (simp add: get_latest_news_def raise_for_status_ok)
  have each: "\<exists>tt dd.
        find_first (is_tag (ustr ''title'')) (feed_items w r ! i) = Some tt \<and>
        find_first (is_tag (ustr ''description'')) (feed_items w r ! i) = Some dd \<and>
        rows ! i = \<lparr>titulo = strip (get_text tt), resumo = strip (get_text dd)\<rparr> \<and>
        trimmed (titulo (rows ! i)) \<and> trimmed (resumo (rows ! i))" if "i < length rows" for i
  proof -
    from that len have i: "i < length ?items" by simp
    from list_all2_nthD[OF rows(2) i] have "entry_row (?items ! i) = Inr (rows ! i)" .
    moreover from i have "?items ! i = feed_items w r ! i" by simp
    ultimately obtain tt dd where
      "find_first (is_tag (ustr ''title'')) (feed_items w r ! i) = Some tt"
      "find_first (is_tag (ustr ''description'')) (feed_items w r ! i) = Some dd"
      "rows ! i = \<lparr>titulo = strip (get_text tt), resumo = strip (get_text dd)\<rparr>"
      by (auto simp: entry_row_Inr)
    then show ?thesis by (simp add: trimmed_strip)
  qed
  from res len each show ?thesis by (intro exI[of _ rows]) simp
qed

theorem get_latest_news_rows_witness:
  "get_latest_news (fixture_world aapl_page 200 short_feed) AAPL 10 [] =
     ([HttpGet (rss_url AAPL) HEADERS, Parse (ustr ''feed'') (ustr ''xml'')],
      Inr [\<lparr>titulo = ustr ''T1'', resumo = ustr ''D1''\<rparr>, \<lparr>titulo = ustr ''T2'', resumo = ustr ''D2''\<rparr>]) \<and>
   get_latest_news aapl_world AAPL 3 [] =
     ([HttpGet (rss_url AAPL) HEADERS, Parse (ustr ''feed'') (ustr ''xml'')],
      Inr [\<lparr>titulo = ustr ''T1'', resumo = ustr ''D1''\<rparr>, \<lparr>titulo = ustr ''T2'', resumo = ustr ''D2''\<rparr>,
           \<lparr>titulo = ustr ''T3'', resumo = ustr ''D3''\<rparr>])"
  using get_latest_news_rows [of "fixture_world aapl_page 200 short_feed" "[]" AAPL
      "\<lparr>status_code = 200, resp_text = ustr ''feed''\<rparr>" 10]
    get_latest_news_rows [of aapl_world "[]" AAPL
      "\<lparr>status_code = 200, resp_text = ustr ''feed''\<rparr>" 3]
  by (simp add: eval_news eval_world eval_feed eval_str strip_def lstrip_def rstrip_def)

text \<open>
  C3, as amended. When the feed request is answered with a status from 400 to 599, the
  statuses for which \<open>raise_for_status\<close> raises, \<open>get_latest_news\<close> raises the HTTP
  error at once: the trace ends with the GET, nothing was handed to the parser, and no
  rows come back.
\<close>

theorem get_latest_news_http_error:
  assumes "http_get w tr (rss_url t) HEADERS = Inr r"
    and "400 \<le> status_code r" and "status_code r < 600"
  shows "get_latest_news w t n tr =
           (tr @ [HttpGet (rss_url t) HEADERS], Inl (HTTPError (status_code r))) \<and>
         parses (fst (get_latest_news w t n tr)) = parses tr"
  using assms by (simp add: get_latest_news_def raise_for_status_def parses_snoc_get)

theorem get_latest_news_http_error_witness:
  "get_latest_news (fixture_world aapl_page 500 aapl_feed) AAPL 5 [] =
     ([HttpGet (rss_url AAPL) HEADERS], Inl (HTTPError 500))"
  using get_latest_news_http_error [of "fixture_world aapl_page 500 aapl_feed" "[]" AAPL
      "\<lparr>status_code = 500, resp_text = ustr ''feed''\<rparr>" 5]
  by (simp add: eval_world eval_str)

text \<open>
  C3 as stated fails: a status that is no success and lies outside 400 to 599 does not
  raise. On a 304 the body is parsed and rows are returned.
\<close>

theorem get_latest_news_not_modified_counterexample:
  "get_latest_news (fixture_world aapl_page 304 short_feed) AAPL 5 [] =
     ([HttpGet (rss_url AAPL) HEADERS, Parse (ustr ''feed'') (ustr ''xml'')],
      Inr [\<lparr>titulo = ustr ''T1'', resumo = ustr ''D1''\<rparr>, \<lparr>titulo = ustr ''T2'', resumo = ustr ''D2''\<rparr>]) \<and>
   parses (fst (get_latest_news (fixture_world aapl_page 304 short_feed) AAPL 5 [])) =
     [(ustr ''feed'', ustr ''xml'')]"
  by (simp add: eval_news eval_world eval_feed eval_str strip_def lstrip_def rstrip_def)

text \<open>
  C4, as amended. Each of the two fetches sends one GET with a fixed browser-like
  User-Agent, whatever the ticker and the world: \<open>fetch_page\<close> sends \<open>Mozilla/5.0\<close>, and
  \<open>get_latest_news\<close> sends the value of \<open>HEADERS\<close>,
  \<open>Mozilla/5.0 (Windows NT 10.0; Win64; x64)\<close>.
\<close>

theorem user_agent_values:
  "user_agents (fst (fetch_page w t tr)) = user_agents tr @ [ustr ''Mozilla/5.0''] \<and>
   user_agents (fst (get_latest_news w t n tr)) =
     user_agents tr @ [ustr ''Mozilla/5.0 (Windows NT 10.0; Win64; x64)'']"
  by (simp add: fetch_page_def get_latest_news_def HEADERS_def user_agents_append Let_def
      split: sum.splits)

theorem user_agent_values_witness:
  "user_agents (fst (fetch_page aapl_world AAPL [])) = [ustr ''Mozilla/5.0''] \<and>
   user_agents (fst (get_latest_news aapl_world AAPL 5 [])) =
     [ustr ''Mozilla/5.0 (Windows NT 10.0; Win64; x64)'']"
  using user_agent_values [of aapl_world AAPL "[]" 5] by simp

text \<open>C4 as stated fails: the two requests for AAPL carry different User-Agent values.\<close>

theorem user_agent_same_counterexample:
  "user_agents (fst (fetch_page aapl_world AAPL [])) \<noteq>
   user_agents (fst (get_latest_news aapl_world AAPL 5 []))"
  by (simp add: fetch_page_def eval_news eval_world eval_str)

text \<open>
  C5. When the text of the name heading, the first \<open>h1\<close> of class \<open>yf-xxbei9\<close>, is
  \<open>Apple Inc. (AAPL)\<close> with any white space around it, \<open>get_company_name\<close> returns
  exactly \<open>Apple Inc.\<close>: the group in parentheses is gone and the result is trimmed.
\<close>

theorem get_company_name_apple:
  assumes "find_first is_name_heading soup = Some h"
    and "get_text h = u @ ustr ''Apple Inc. (AAPL)'' @ v" and "all_space u" and "all_space v"
  shows "get_company_name soup = ustr ''Apple Inc.''"
proof -
  from assms(2-4) have "strip (get_text h) = ustr ''Apple Inc. (AAPL)''"
    by (simp add: strip_pad trimmed_apple)
  with assms(1) show ?thesis by (simp add: get_company_name_def clean_apple)
qed

theorem get_company_name_apple_witness:
  "get_company_name aapl_page = ustr ''Apple Inc.''"
  using get_company_name_apple [of aapl_page
      "Tag (ustr ''h1'') [ustr ''class'' \<mapsto> Tokens [ustr ''yf-xxbei9'']]
         [NavigableString (ustr '' Apple Inc. (AAPL) '')]"
      "ustr '' ''" "ustr '' ''"]
  by (simp add: aapl_page_def eval_soup eval_str all_space_def)

text \<open>
  C6. When no tag of the page is an \<open>h1\<close> of class \<open>yf-xxbei9\<close>, \<open>get_company_name\<close>
  returns the fixed sentinel string \<open>name_not_found\<close>; it has no error to raise.
\<close>

theorem get_company_name_sentinel:
  "\<forall>e\<in>set (descendants soup). \<not> is_name_heading e \<Longrightarrow>
   get_company_name soup = name_not_found"
  by (simp add: get_company_name_def find_first_None_iff [THEN iffD2])

theorem get_company_name_sentinel_witness:
  "get_company_name bare_page = name_not_found"
  using get_company_name_sentinel [of bare_page]
  by (simp add: bare_page_def eval_soup eval_str)

text \<open>
  C7. When no tag of the page is a \<open>span\<close> whose \<open>data-testid\<close> is \<open>qsp-price\<close>,
  \<open>get_current_price\<close> returns \<open>None\<close>, which is no string: it differs from the empty
  string and from the name sentinel. The function has no error to raise.
\<close>

theorem get_current_price_absent:
  "\<forall>e\<in>set (descendants soup). \<not> is_price_span e \<Longrightarrow>
   get_current_price soup = None \<and> get_current_price soup \<noteq> Some [] \<and>
   get_current_price soup \<noteq> Some name_not_found"
  by (simp add: get_current_price_def find_first_None_iff [THEN iffD2])

theorem get_current_price_absent_witness:
  "get_current_price bare_page = None"
  using get_current_price_absent [of bare_page]
  by (simp add: bare_page_def eval_soup eval_str)



text \<open>
  C9. The batch runs the tickers one after the other in list order, each on the trace
  the one before left. When the tickers before \<open>t\<close> have returned and \<open>analyze_stock\<close>
  fails on \<open>t\<close>, the batch stops there with that error: the tickers after \<open>t\<close> add
  nothing to the trace, and neither the table nor the list of records is produced. When
  the batch does return, the records are those of the tickers in list order and the
  table is made from them.
\<close>

theorem batch_runner_fail_fast:
  "(analyze_all w n pre [] tr = (tr1, Inr rs) \<and> analyze_stock w t n tr1 = (tr2, Inl e) \<longrightarrow>
      batch_runner w (pre @ t # post) n tr = (tr2, Inl e)) \<and>
   (batch_runner w tickers n tr = (tr3, Inr (df, todos)) \<longrightarrow>
      map ticker todos = tickers \<and> df = map price_row todos)"
proof (rule conjI; rule impI)
  assume "analyze_all w n pre [] tr = (tr1, Inr rs) \<and> analyze_stock w t n tr1 = (tr2, Inl e)"
  then have h1: "analyze_all w n pre [] tr = (tr1, Inr rs)"
    and h2: "analyze_stock w t n tr1 = (tr2, Inl e)" by (rule conjunct1, rule conjunct2)
  from h1 h2 show "batch_runner w (pre @ t # post) n tr = (tr2, Inl e)"
    by (rule batch_runner_abort)
next
  assume b: "batch_runner w tickers n tr = (tr3, Inr (df, todos))"
  from batch_runner_Inr[OF b] have a: "analyze_all w n tickers [] tr = (tr3, Inr todos)"
    and d: "df = map price_row todos" by simp_all
  from analyze_all_tickers[OF a] have "map ticker todos = tickers" by simp
  with d show "map ticker todos = tickers \<and> df = map price_row todos" by simp
qed

theorem batch_runner_fail_fast_witness:
  "batch_runner aapl_world [AAPL, ustr ''BADTICKER'', AAPL] 3 [] =
     (aapl_trace @
        [HttpGet (page_url (ustr ''BADTICKER'')) [(ustr ''User-Agent'', ustr ''Mozilla/5.0'')]],
      Inl (RequestException (ustr ''ConnectionError''))) \<and>
   batch_runner aapl_world [AAPL] 3 [] =
     (aapl_trace,
      Inr ([(ustr ''AAPL'', ustr ''Apple Inc.'', Some (ustr ''195.27''))], [aapl_snapshot 3]))"
  using batch_runner_fail_fast [of aapl_world 3 "[AAPL]" "[]" aapl_trace "[aapl_snapshot 3]"
      "ustr ''BADTICKER''"
      "aapl_trace @
         [HttpGet (page_url (ustr ''BADTICKER'')) [(ustr ''User-Agent'', ustr ''Mozilla/5.0'')]]"
      "RequestException (ustr ''ConnectionError'')" "[AAPL]" "[AAPL]" aapl_trace
      "[(ustr ''AAPL'', ustr ''Apple Inc.'', Some (ustr ''195.27''))]" "[aapl_snapshot 3]"]
  by (simp add: analyze_aapl3 analyze_bad batch_runner_def price_row_def aapl_snapshot_def)

text \<open>
  C10. The docstring of \<open>clean_company_name\<close> promises that text between parentheses is
  removed, and the claim says so for every input. The code misses the groups with a line
  feed inside: \<open>Alpha (A\<close>, line feed, \<open>B)\<close> comes back as it went in, with its group. The
  same group with a space in place of the line feed is removed, and a line feed before a
  group is removed with it, since the white space class of the same pattern does match
  it.
\<close>

theorem clean_company_name_line_feed_group:
  "clean_company_name (ustr ''Alpha (A'' @ [newline] @ ustr ''B)'') =
     ustr ''Alpha (A'' @ [newline] @ ustr ''B)'' \<and>
   has_group (clean_company_name (ustr ''Alpha (A'' @ [newline] @ ustr ''B)'')) \<and>
   clean_company_name (ustr ''Alpha (A B)'') = ustr ''Alpha'' \<and>
   clean_company_name (ustr ''Alpha'' @ [newline] @ ustr ''(A)'') = ustr ''Alpha''"
  by (simp add: clean_company_name_def ustr_def sub_Cons match_paren_def strip_def
      lstrip_def rstrip_def isspace_def lparen_def rparen_def newline_def)

end
